theory Spec2Isabelle
  imports Complex_Main
begin

section \<open>Python strings\<close>

text \<open>
  A Python \<open>str\<close> is modelled as a \<open>string\<close> whose characters are the code points
  0 to 255 (the catalog is read with \<open>encoding='latin1'\<close>, so every product name is such a
  string). \<open>str.isspace\<close> and \<open>str.lower\<close> are written out for these code points.
\<close>

definition isspace :: "char \<Rightarrow> bool" where
  \<comment> \<open>the code points below 256 on which \<open>str.split()\<close> splits\<close>
  "isspace c =
     (let n = (of_char c :: nat)
      in (9 \<le> n \<and> n \<le> 13) \<or> (28 \<le> n \<and> n \<le> 32) \<or> n = 133 \<or> n = 160)"

definition lower_char :: "char \<Rightarrow> char" where
  \<comment> \<open>\<open>A\<close> to \<open>Z\<close>, and the Latin-1 capitals 192 to 222 without the multiplication sign 215\<close>
  "lower_char c =
     (let n = (of_char c :: nat)
      in if (65 \<le> n \<and> n \<le> 90) \<or> (192 \<le> n \<and> n \<le> 222 \<and> n \<noteq> 215)
         then char_of (n + 32) else c)"

definition str_lower :: "string \<Rightarrow> string" where
  "str_lower s = map lower_char s"

fun split_from :: "string \<Rightarrow> string \<Rightarrow> string list" where
  "split_from cur [] = (if cur = [] then [] else [cur])"
| "split_from cur (c # cs) =
     (if isspace c
      then (if cur = [] then split_from [] cs else cur # split_from [] cs)
      else split_from (cur @ [c]) cs)"

definition str_split :: "string \<Rightarrow> string list" where
  \<comment> \<open>\<open>s.split()\<close>: the maximal runs of characters that are not whitespace\<close>
  "str_split s = split_from [] s"

fun str_join :: "string \<Rightarrow> string list \<Rightarrow> string" where
  "str_join sep [] = []"
| "str_join sep [w] = w"
| "str_join sep (w # v # ws) = w @ sep @ str_join sep (v # ws)"

definition startswith :: "string \<Rightarrow> string \<Rightarrow> bool" where
  \<comment> \<open>\<open>s.startswith(p)\<close>\<close>
  "startswith s p = (take (length p) s = p)"

fun str_contains :: "string \<Rightarrow> string \<Rightarrow> bool" where
  \<comment> \<open>\<open>p in s\<close>\<close>
  "str_contains p [] = (p = [])"
| "str_contains p (c # cs) = (startswith (c # cs) p \<or> str_contains p cs)"

section \<open>Query normalization\<close>

definition stop_words :: "string set" where
  "stop_words = {''the'', ''a'', ''an'', ''of'', ''and'', ''in'', ''for'', ''on'', ''with'', ''to''}"

definition preprocess_query :: "string \<Rightarrow> string" where
  "preprocess_query query =
     (let words = str_split (str_lower query);
          query_clean = str_join '' '' [word \<leftarrow> words. word \<notin> stop_words]
      in query_clean)"

section \<open>Python and NumPy primitives\<close>

datatype py_error = AssertionError | EncodingError | IndexError | ValueError

definition bind_err :: "py_error + 'a \<Rightarrow> ('a \<Rightarrow> py_error + 'b) \<Rightarrow> py_error + 'b" where
  \<comment> \<open>sequencing: an exception raised by the first computation ends the run\<close>
  "bind_err m f = (case m of Inl e \<Rightarrow> Inl e | Inr x \<Rightarrow> f x)"

definition py_index :: "'a list \<Rightarrow> int \<Rightarrow> py_error + 'a" where
  \<comment> \<open>\<open>xs[i]\<close> for a list or a 1-d array: \<open>-1\<close> is the last element, and an index
      outside \<open>-len(xs) .. len(xs) - 1\<close> raises\<close>
  "py_index xs i =
     (if 0 \<le> i \<and> i < int (length xs) then Inr (xs ! nat i)
      else if - int (length xs) \<le> i \<and> i < 0 then Inr (xs ! nat (int (length xs) + i))
      else Inl IndexError)"

fun py_map :: "('a \<Rightarrow> py_error + 'b) \<Rightarrow> 'a list \<Rightarrow> py_error + 'b list" where
  \<comment> \<open>a list comprehension \<open>[f(x) for x in xs]\<close> whose body may raise\<close>
  "py_map f [] = Inr []"
| "py_map f (x # xs) =
     bind_err (f x) (\<lambda>y. bind_err (py_map f xs) (\<lambda>ys. Inr (y # ys)))"

definition py_slice_to :: "'a list \<Rightarrow> int \<Rightarrow> 'a list" where
  \<comment> \<open>\<open>xs[:k]\<close>: a negative \<open>k\<close> drops the last \<open>-k\<close> elements\<close>
  "py_slice_to xs k =
     (if 0 \<le> k then take (nat k) xs else take (nat (int (length xs) + k)) xs)"

definition np_scale :: "real \<Rightarrow> real list \<Rightarrow> real list" where
  \<comment> \<open>\<open>np.array(c) * np.array(xs)\<close>: a 0-d array times a 1-d array\<close>
  "np_scale c xs = map (\<lambda>x. c * x) xs"

definition np_add :: "real list \<Rightarrow> real list \<Rightarrow> py_error + real list" where
  \<comment> \<open>\<open>xs + ys\<close> on 1-d arrays, with NumPy's broadcasting of a length-1 operand\<close>
  "np_add xs ys =
     (if length xs = length ys then Inr (map (\<lambda>(x, y). x + y) (zip xs ys))
      else if length xs = 1 then Inr (map (\<lambda>y. hd xs + y) ys)
      else if length ys = 1 then Inr (map (\<lambda>x. x + hd ys) xs)
      else Inl ValueError)"

definition np_where_gt :: "real list \<Rightarrow> real \<Rightarrow> nat list" where
  \<comment> \<open>\<open>np.where(xs > c)[0]\<close>: the positions whose value exceeds \<open>c\<close>, ascending\<close>
  "np_where_gt xs c = [i \<leftarrow> [0..<length xs]. xs ! i > c]"

definition np_take :: "'a list \<Rightarrow> nat list \<Rightarrow> py_error + 'a list" where
  \<comment> \<open>\<open>xs[idx]\<close> with an index array\<close>
  "np_take xs idx = py_map (\<lambda>i. py_index xs (int i)) idx"

section \<open>The collaborators of the pipeline\<close>

text \<open>
  The catalog and the three libraries the pipeline calls are parameters of the model:
  \<open>products\<close> is the module-level list of names, \<open>model_encode\<close> is \<open>model.encode\<close>,
  \<open>faiss_index_search\<close> is \<open>faiss_index.search\<close> (it returns the two 2-d arrays
  \<open>distances\<close> and \<open>indices\<close>), \<open>token_set_ratio\<close> is \<open>fuzz.token_set_ratio\<close> and
  \<open>np_argsort\<close> is \<open>np.argsort\<close> with its default \<open>kind\<close>. Scores are real numbers: the
  rounding of the floating-point arithmetic is not modelled.
\<close>

record 'e env =
  products :: "string list"
  model_encode :: "string list \<Rightarrow> py_error + 'e"
  faiss_index_search :: "'e \<Rightarrow> int \<Rightarrow> py_error + (real list list \<times> int list list)"
  token_set_ratio :: "string \<Rightarrow> string \<Rightarrow> int"
  np_argsort :: "real list \<Rightarrow> nat list"

definition faiss_ok :: "('e \<Rightarrow> int \<Rightarrow> py_error + (real list list \<times> int list list)) \<Rightarrow> bool" where
  \<comment> \<open>both arrays have shape \<open>(nq, k)\<close> and the distances are squared L2 distances\<close>
  "faiss_ok search =
     (\<forall>q k D I. search q k = Inr (D, I) \<longrightarrow>
        (\<forall>d \<in> set D. int (length d) = k \<and> (\<forall>x \<in> set d. 0 \<le> x)) \<and>
        (\<forall>i \<in> set I. int (length i) = k))"


definition argsort_ok :: "(real list \<Rightarrow> nat list) \<Rightarrow> bool" where
  \<comment> \<open>what \<open>np.argsort\<close> promises for every \<open>kind\<close>: a permutation of the positions that
      puts the values in non-decreasing order\<close>
  "argsort_ok asort =
     (\<forall>xs. distinct (asort xs) \<and> set (asort xs) = {0..<length xs} \<and>
           sorted (map (\<lambda>i. xs ! i) (asort xs)))"

section \<open>Lexical scoring\<close>

definition get_fuzzy_scores :: "'e env \<Rightarrow> string \<Rightarrow> int list \<Rightarrow> py_error + (real list \<times> real list)" where
  "get_fuzzy_scores env query_clean indices =
     bind_err (py_map (\<lambda>i. bind_err (py_index (products env) i)
                 (\<lambda>p. Inr (real_of_int (token_set_ratio env query_clean (str_lower p)) / 100)))
               indices) (\<lambda>fuzzy_scores.
     bind_err (py_map (\<lambda>i. bind_err (py_index (products env) i)
                 (\<lambda>p. Inr (if str_contains query_clean (str_lower p) then 1 else 0)))
               indices) (\<lambda>substring_boost.
     Inr (fuzzy_scores, substring_boost)))"

definition startswith_boosts :: "'e env \<Rightarrow> string \<Rightarrow> int list \<Rightarrow> py_error + real list" where
  \<comment> \<open>the comprehension that \<open>search_products\<close> binds to \<open>startswith_boost\<close>\<close>
  "startswith_boosts env query_clean indices0 =
     py_map (\<lambda>i. bind_err (py_index (products env) i)
               (\<lambda>p. Inr (if startswith (str_lower p) query_clean then 1 else 0)))
            indices0"

section \<open>The search pipeline\<close>

definition score_candidates :: "'e env \<Rightarrow> string \<Rightarrow> int \<Rightarrow> py_error + (real list \<times> int list \<times> real list)" where
  \<comment> \<open>\<open>search_products\<close> up to the fused scores: it yields \<open>distances[0]\<close>, \<open>indices[0]\<close>
      and \<open>final_scores\<close>\<close>
  "score_candidates env query top_k =
     (let query_clean = preprocess_query query in
      bind_err (model_encode env [query_clean]) (\<lambda>query_embedding.
      bind_err (faiss_index_search env query_embedding (top_k * 3)) (\<lambda>(distances, indices).
      bind_err (py_index distances 0) (\<lambda>distances0.
      let ai_scores = map (\<lambda>d. 1 - d) distances0 in
      bind_err (py_index indices 0) (\<lambda>indices0.
      bind_err (get_fuzzy_scores env query_clean indices0) (\<lambda>(fuzzy_scores, substring_boost).
      bind_err (startswith_boosts env query_clean indices0) (\<lambda>startswith_boost.
      bind_err (np_add (np_scale 0.4 ai_scores) (np_scale 0.4 fuzzy_scores)) (\<lambda>s1.
      bind_err (np_add s1 (np_scale 0.1 startswith_boost)) (\<lambda>s2.
      bind_err (np_add s2 (np_scale 0.1 substring_boost)) (\<lambda>final_scores.
      Inr (distances0, indices0, final_scores)))))))))))"

definition top_k_positions :: "'e env \<Rightarrow> real list \<Rightarrow> int \<Rightarrow> py_error + nat list" where
  \<comment> \<open>\<open>top_k_indices\<close>: threshold, order by descending score, truncate\<close>
  "top_k_positions env final_scores top_k =
     (let filtered_indices = np_where_gt final_scores 0.1;
          order = np_argsort env (map (\<lambda>i. - (final_scores ! i)) filtered_indices)
      in bind_err (np_take filtered_indices order) (\<lambda>sorted_indices.
         Inr (py_slice_to sorted_indices top_k)))"

definition select_results :: "'e env \<Rightarrow> int list \<Rightarrow> real list \<Rightarrow> int \<Rightarrow> py_error + (string \<times> real) list" where
  "select_results env indices0 final_scores top_k =
     bind_err (top_k_positions env final_scores top_k) (\<lambda>top_k_indices.
     py_map (\<lambda>i. bind_err (py_index indices0 (int i)) (\<lambda>j.
                 bind_err (py_index (products env) j) (\<lambda>p.
                 bind_err (py_index final_scores (int i)) (\<lambda>s. Inr (p, s)))))
            top_k_indices)"

definition search_products :: "'e env \<Rightarrow> string \<Rightarrow> int \<Rightarrow> py_error + (string \<times> real) list" where
  "search_products env query top_k =
     bind_err (score_candidates env query top_k) (\<lambda>(distances0, indices0, final_scores).
     select_results env indices0 final_scores top_k)"

section \<open>A small catalog with stand-ins for the libraries\<close>

definition FLT_MAX :: real where
  "FLT_MAX = 340282346638528859811704183484516925440"

definition flat_search :: "(real \<times> int) list \<Rightarrow> unit \<Rightarrow> int \<Rightarrow> py_error + (real list list \<times> int list list)" where
  \<comment> \<open>an index whose neighbours, nearest first, are \<open>hits\<close>; like FAISS it pads the row
      with the label -1 at distance \<open>FLT_MAX\<close> when fewer than \<open>k\<close> vectors are stored\<close>
  "flat_search hits q k =
     (if k \<le> 0 then Inl AssertionError
      else let row = take (nat k) hits @ replicate (nat k - length hits) (FLT_MAX, - 1)
           in Inr ([map fst row], [map snd row]))"

definition overlap_ratio :: "string \<Rightarrow> string \<Rightarrow> int" where
  \<comment> \<open>the share of the first string's tokens that occur in the second, in percent\<close>
  "overlap_ratio a b =
     (let ta = str_split a; tb = str_split b
      in if ta = [] \<or> tb = [] then 0
         else (100 * int (length [t \<leftarrow> ta. t \<in> set tb])) div int (length ta))"

definition argsort_stable :: "real list \<Rightarrow> nat list" where
  \<comment> \<open>insertion sort of the positions: ties keep their order\<close>
  "argsort_stable xs = sort_key (\<lambda>i. xs ! i) [0..<length xs]"


definition tea_shop :: "unit env" where
  "tea_shop = \<lparr> products = [''Green Tea 250g'', ''Black Tea 100g'', ''Green Coffee''],
                model_encode = (\<lambda>texts. Inr ()),
                faiss_index_search = flat_search [(0.2, 0), (0.5, 1), (0.7, 2)],
                token_set_ratio = overlap_ratio,
                np_argsort = argsort_stable \<rparr>"



definition far_shop :: "unit env" where
  \<comment> \<open>a catalog whose products are all far from the query \<open>tea\<close>\<close>
  "far_shop = \<lparr> products = [''Espresso Beans'', ''Filter Coffee'', ''Cocoa''],
                model_encode = (\<lambda>texts. Inr ()),
                faiss_index_search = flat_search [(1.9, 0), (2, 1), (2.5, 2)],
                token_set_ratio = overlap_ratio,
                np_argsort = argsort_stable \<rparr>"


section \<open>Facts about the string operations\<close>

lemma isspace_space [simp]: "isspace CHR '' ''"
  by (simp add: isspace_def)

lemma lower_char_idem [simp]: "lower_char (lower_char c) = lower_char c"
  unfolding lower_char_def Let_def
  by auto

lemma str_lower_idem [simp]: "str_lower (str_lower s) = str_lower s"
  by (simp add: str_lower_def)

lemma isspace_lower_char [simp]: "isspace (lower_char c) = isspace c"
  unfolding lower_char_def isspace_def Let_def
  by auto

lemma split_from_word:
  "\<forall>c \<in> set w. \<not> isspace c \<Longrightarrow> split_from cur (w @ rest) = split_from (cur @ w) rest"
  by (induction w arbitrary: cur) auto

lemma split_from_tokens:
  "w \<in> set (split_from cur s) \<Longrightarrow> \<forall>c \<in> set cur. \<not> isspace c \<Longrightarrow>
     w \<noteq> [] \<and> (\<forall>c \<in> set w. \<not> isspace c) \<and> set w \<subseteq> set cur \<union> set s"
proof (induction cur s rule: split_from.induct)
  case (1 cur)
  then show ?case by (auto split: if_splits)
next
  case (2 cur c cs)
  then show ?case by (fastforce split: if_splits)
qed

lemma str_split_tokens:
  "w \<in> set (str_split s) \<Longrightarrow> w \<noteq> [] \<and> (\<forall>c \<in> set w. \<not> isspace c) \<and> set w \<subseteq> set s"
  using split_from_tokens [of w "[]" s] by (simp add: str_split_def)

lemma split_join:
  "\<forall>w \<in> set ws. w \<noteq> [] \<and> (\<forall>c \<in> set w. \<not> isspace c) \<Longrightarrow>
     str_split (str_join '' '' ws) = ws"
proof (induction "'' ''" ws rule: str_join.induct)
  case 1
  then show ?case by (simp add: str_split_def)
next
  case (2 w)
  then have "split_from [] (w @ []) = split_from ([] @ w) []"
    by (intro split_from_word) simp
  with 2 show ?case by (simp add: str_split_def)
next
  case (3 w v ws)
  from 3 have w: "w \<noteq> []" "\<forall>c \<in> set w. \<not> isspace c" by simp_all
  have "split_from [] (w @ '' '' @ str_join '' '' (v # ws))
      = split_from ([] @ w) ('' '' @ str_join '' '' (v # ws))"
    using w(2) by (rule split_from_word)
  also have "\<dots> = w # split_from [] (str_join '' '' (v # ws))"
    using w(1) by simp
  also have "split_from [] (str_join '' '' (v # ws)) = v # ws"
    using 3 by (simp add: str_split_def)
  finally show ?case by (simp add: str_split_def)
qed

lemma lower_join_tokens:
  "\<forall>w \<in> set ws. str_lower w = w \<Longrightarrow> str_lower (str_join sep ws) = str_join (str_lower sep) ws"
  by (induction sep ws rule: str_join.induct) (simp_all add: str_lower_def)

lemma str_lower_space [simp]: "str_lower '' '' = '' ''"
  by (simp add: str_lower_def lower_char_def)

lemma lower_token_of_lower:
  assumes "w \<in> set (str_split (str_lower s))"
  shows "str_lower w = w"
proof -
  from assms have "set w \<subseteq> set (str_lower s)" using str_split_tokens by blast
  then have "\<forall>c \<in> set w. lower_char c = c"
    by (auto simp: str_lower_def)
  then show ?thesis by (simp add: str_lower_def map_idI)
qed

lemma split_preprocess:
  "str_split (preprocess_query q) = [w \<leftarrow> str_split (str_lower q). w \<notin> stop_words]"
  unfolding preprocess_query_def Let_def
  by (rule split_join) (use str_split_tokens in auto)

lemma join_split_preprocess:
  "str_join '' '' (str_split (preprocess_query q)) = preprocess_query q"
  by (simp add: split_preprocess) (simp add: preprocess_query_def)

lemma concat_split_from:
  "concat (split_from cur s) = cur @ filter (\<lambda>c. \<not> isspace c) s"
  by (induction cur s rule: split_from.induct) auto

lemma concat_str_split: "concat (str_split s) = filter (\<lambda>c. \<not> isspace c) s"
  by (simp add: str_split_def concat_split_from)

section \<open>Facts about the primitives and the scoring stage\<close>

lemma bind_err_Inr [simp]: "bind_err (Inr x) f = f x"
  by (simp add: bind_err_def)

lemma bind_err_Inl [simp]: "bind_err (Inl e) f = Inl e"
  by (simp add: bind_err_def)

lemma bind_err_eq_Inr: "bind_err m f = Inr y \<longleftrightarrow> (\<exists>x. m = Inr x \<and> f x = Inr y)"
  by (cases m) simp_all

lemma py_index_mem: "py_index xs i = Inr x \<Longrightarrow> x \<in> set xs"
  by (auto simp: py_index_def split: if_splits)

lemma py_index_nat:
  "py_index xs (int i) = (if i < length xs then Inr (xs ! i) else Inl IndexError)"
  by (simp add: py_index_def)

lemma py_map_eq_Inr: "py_map f xs = Inr ys \<longleftrightarrow> list_all2 (\<lambda>x y. f x = Inr y) xs ys"
proof (induction xs arbitrary: ys)
  case Nil
  then show ?case by auto
next
  case (Cons x xs)
  then show ?case
    by (cases ys) (auto simp: bind_err_eq_Inr)
qed

lemma py_map_cong: "(\<And>x. x \<in> set xs \<Longrightarrow> f x = g x) \<Longrightarrow> py_map f xs = py_map g xs"
  by (induction xs) simp_all




lemma get_fuzzy_scores_eq_Inr:
  "get_fuzzy_scores env qc idx = Inr (fz, sb) \<longleftrightarrow>
     list_all2 (\<lambda>i y. \<exists>p. py_index (products env) i = Inr p \<and>
                    y = real_of_int (token_set_ratio env qc (str_lower p)) / 100) idx fz \<and>
     list_all2 (\<lambda>i y. \<exists>p. py_index (products env) i = Inr p \<and>
                    y = (if str_contains qc (str_lower p) then 1 else 0)) idx sb"
  unfolding get_fuzzy_scores_def
  by (simp add: bind_err_eq_Inr py_map_eq_Inr) (auto elim!: list_all2_mono)

lemma startswith_boosts_eq_Inr:
  "startswith_boosts env qc idx = Inr pb \<longleftrightarrow>
     list_all2 (\<lambda>i y. \<exists>p. py_index (products env) i = Inr p \<and>
                    y = (if startswith (str_lower p) qc then 1 else 0)) idx pb"
  unfolding startswith_boosts_def
  by (auto simp: bind_err_eq_Inr py_map_eq_Inr elim!: list_all2_mono)

lemma score_candidates_InrE:
  assumes "score_candidates env query top_k = Inr (d0, i0, fs)"
  obtains e D I fz sb pb s1 s2 where
    "model_encode env [preprocess_query query] = Inr e"
    "faiss_index_search env e (top_k * 3) = Inr (D, I)"
    "py_index D 0 = Inr d0" "py_index I 0 = Inr i0"
    "get_fuzzy_scores env (preprocess_query query) i0 = Inr (fz, sb)"
    "startswith_boosts env (preprocess_query query) i0 = Inr pb"
    "np_add (np_scale 0.4 (map (\<lambda>d. 1 - d) d0)) (np_scale 0.4 fz) = Inr s1"
    "np_add s1 (np_scale 0.1 pb) = Inr s2"
    "np_add s2 (np_scale 0.1 sb) = Inr fs"
  using assms unfolding score_candidates_def Let_def
  by (auto simp: bind_err_eq_Inr split: prod.splits)

lemma str_contains_Nil [simp]: "str_contains [] s"
  by (cases s) (simp_all add: startswith_def)

lemma startswith_Nil [simp]: "startswith s []"
  by (simp add: startswith_def)

lemma startswith_self [simp]: "startswith s s"
  by (simp add: startswith_def)

lemma str_contains_self [simp]: "str_contains s s"
  by (cases s) simp_all

section \<open>Facts about the selection stage and the stand-ins\<close>

lemma flat_search_ok: "\<forall>h \<in> set hits. 0 \<le> fst h \<Longrightarrow> faiss_ok (flat_search hits)"
  unfolding faiss_ok_def flat_search_def Let_def
  by (auto simp: FLT_MAX_def split: if_splits dest!: in_set_takeD)


lemma argsort_stable_ok: "argsort_ok argsort_stable"
  unfolding argsort_ok_def argsort_stable_def
  by simp


lemma np_take_eq_Inr:
  "np_take xs idx = Inr ys \<longleftrightarrow> (\<forall>i \<in> set idx. i < length xs) \<and> ys = map (\<lambda>i. xs ! i) idx"
  unfolding np_take_def py_map_eq_Inr
proof (induction idx arbitrary: ys)
  case Nil
  then show ?case by auto
next
  case (Cons i idx)
  then show ?case
    by (cases ys) (auto simp: py_index_nat split: if_splits)
qed

lemma length_py_slice_to: "0 \<le> k \<Longrightarrow> int (length (py_slice_to xs k)) \<le> k"
  by (simp add: py_slice_to_def)

lemma set_py_slice_to: "set (py_slice_to xs k) \<subseteq> set xs"
  by (auto simp: py_slice_to_def dest: in_set_takeD)

lemma np_where_gt_iff: "i \<in> set (np_where_gt xs c) \<longleftrightarrow> i < length xs \<and> c < xs ! i"
  by (auto simp: np_where_gt_def)

lemma top_k_positions_InrD:
  assumes "top_k_positions env fs k = Inr pos"
  shows "pos = py_slice_to (map (\<lambda>i. np_where_gt fs 0.1 ! i)
                 (np_argsort env (map (\<lambda>i. - (fs ! i)) (np_where_gt fs 0.1)))) k"
    and "\<forall>i \<in> set (np_argsort env (map (\<lambda>i. - (fs ! i)) (np_where_gt fs 0.1))).
            i < length (np_where_gt fs 0.1)"
    and "\<forall>i \<in> set pos. i < length fs \<and> 0.1 < fs ! i"
proof -
  let ?f = "np_where_gt fs 0.1"
  let ?o = "np_argsort env (map (\<lambda>i. - (fs ! i)) ?f)"
  from assms have t: "(\<forall>i \<in> set ?o. i < length ?f)" and p: "pos = py_slice_to (map (\<lambda>i. ?f ! i) ?o) k"
    unfolding top_k_positions_def Let_def
    by (auto simp: bind_err_eq_Inr np_take_eq_Inr)
  show "pos = py_slice_to (map (\<lambda>i. ?f ! i) ?o) k" by (rule p)
  show "\<forall>i \<in> set ?o. i < length ?f" by (rule t)
  have "set pos \<subseteq> set ?f"
    using set_py_slice_to [of "map (\<lambda>i. ?f ! i) ?o" k] t by (auto simp: p)
  then show "\<forall>i \<in> set pos. i < length fs \<and> 0.1 < fs ! i"
    using np_where_gt_iff by blast
qed

lemma select_results_eq_Inr:
  "select_results env i0 fs k = Inr res \<longleftrightarrow>
     (\<exists>pos. top_k_positions env fs k = Inr pos \<and>
        list_all2 (\<lambda>i r. \<exists>j p. py_index i0 (int i) = Inr j \<and> py_index (products env) j = Inr p \<and>
                            i < length fs \<and> r = (p, fs ! i)) pos res)"
  unfolding select_results_def
  by (auto simp: bind_err_eq_Inr py_map_eq_Inr py_index_nat split: if_splits elim!: list_all2_mono)

lemma search_products_InrE:
  assumes "search_products env q k = Inr res"
  obtains d0 i0 fs where "score_candidates env q k = Inr (d0, i0, fs)"
    "select_results env i0 fs k = Inr res"
  using assms unfolding search_products_def
  by (auto simp: bind_err_eq_Inr)

lemma tea_shop_faiss_ok: "faiss_ok (faiss_index_search tea_shop)"
  unfolding tea_shop_def by (simp add: flat_search_ok)

lemma list_all2_memD:
  "list_all2 P xs ys \<Longrightarrow> y \<in> set ys \<Longrightarrow> \<exists>x \<in> set xs. P x y"
  by (induction xs ys rule: list_all2_induct) auto

lemma select_results_memE:
  assumes "select_results env i0 fs k = Inr res" "(name, score) \<in> set res"
  obtains pos i where "top_k_positions env fs k = Inr pos" "i \<in> set pos" "i < length fs"
    "i < length i0" "py_index (products env) (i0 ! i) = Inr name" "score = fs ! i"
proof -
  from assms(1) obtain pos where pos: "top_k_positions env fs k = Inr pos"
    and rel: "list_all2 (\<lambda>i r. \<exists>j p. py_index i0 (int i) = Inr j \<and>
                 py_index (products env) j = Inr p \<and> i < length fs \<and> r = (p, fs ! i)) pos res"
    by (auto simp: select_results_eq_Inr)
  from list_all2_memD [OF rel assms(2)] obtain i j where "i \<in> set pos"
    "py_index i0 (int i) = Inr j" "py_index (products env) j = Inr name" "i < length fs"
    "score = fs ! i"
    by auto
  with pos that show thesis
    by (auto simp: py_index_nat split: if_splits)
qed

















section \<open>Query normalization: the claims\<close>

text \<open>
  Claim C6. \<open>preprocess_query\<close> is a total function of its argument. The tokens of its
  result are the whitespace-separated tokens of the lowercased input, in their order,
  without the ten stop words; the result is these tokens joined by single spaces; and
  when every token is a stop word the result is the empty string.
\<close>

theorem preprocess_query_meets_spec:
  "str_split (preprocess_query q) =
     [w \<leftarrow> str_split (str_lower q).
        w \<notin> {''the'', ''a'', ''an'', ''of'', ''and'', ''in'', ''for'', ''on'', ''with'', ''to''}] \<and>
   preprocess_query q = str_join '' '' (str_split (preprocess_query q)) \<and>
   (set (str_split (str_lower q)) \<subseteq> stop_words \<longrightarrow> preprocess_query q = [])"
proof -
  have "set (str_split (str_lower q)) \<subseteq> stop_words \<Longrightarrow>
          [w \<leftarrow> str_split (str_lower q). w \<notin> stop_words] = []"
    by (auto simp: filter_empty_conv)
  then have "set (str_split (str_lower q)) \<subseteq> stop_words \<longrightarrow> preprocess_query q = []"
    by (simp add: preprocess_query_def)
  moreover have "str_split (preprocess_query q) =
     [w \<leftarrow> str_split (str_lower q).
        w \<notin> {''the'', ''a'', ''an'', ''of'', ''and'', ''in'', ''for'', ''on'', ''with'', ''to''}]"
    using split_preprocess [of q] by (simp only: stop_words_def)
  ultimately show ?thesis
    using join_split_preprocess [of q] by simp
qed

theorem preprocess_query_meets_spec_witness:
  "preprocess_query ''The  Green Tea of'' = ''green tea'' \<and>
   set (str_split (str_lower ''Of the AND'')) \<subseteq> stop_words \<and>
   preprocess_query ''Of the AND'' = []"
proof -
  have h: "set (str_split (str_lower ''Of the AND'')) \<subseteq> stop_words" by code_simp
  have g: "preprocess_query ''The  Green Tea of'' = ''green tea''" by code_simp
  from preprocess_query_meets_spec [of "''Of the AND''"] h g show ?thesis by blast
qed

text \<open>
  Claim C9. Normalizing a normalized query changes nothing:
  \<open>preprocess_query (preprocess_query s) = preprocess_query s\<close> for every string \<open>s\<close>.
\<close>

theorem preprocess_query_idem: "preprocess_query (preprocess_query s) = preprocess_query s"
proof -
  define ws where "ws = [w \<leftarrow> str_split (str_lower s). w \<notin> stop_words]"
  have p: "preprocess_query s = str_join '' '' ws"
    by (simp add: preprocess_query_def ws_def)
  have low: "\<forall>w \<in> set ws. str_lower w = w"
    by (auto simp: ws_def lower_token_of_lower)
  have tok: "\<forall>w \<in> set ws. w \<noteq> [] \<and> (\<forall>c \<in> set w. \<not> isspace c)"
    using str_split_tokens by (auto simp: ws_def)
  have "str_lower (str_join '' '' ws) = str_join '' '' ws"
    using lower_join_tokens [OF low, of "'' ''"] by simp
  moreover have "str_split (str_join '' '' ws) = ws"
    using tok by (rule split_join)
  moreover have "[w \<leftarrow> ws. w \<notin> stop_words] = ws"
    by (simp add: ws_def)
  ultimately show ?thesis
    by (simp add: p) (simp add: preprocess_query_def)
qed

section \<open>Scoring: the claims\<close>

text \<open>
  Claim C1, as amended. When the normalized query is empty, every candidate's substring
  boost and prefix boost is 1: the empty string is contained in every name and every name
  starts with it. (The specification says 0.)
\<close>

theorem empty_query_boosts:
  assumes "preprocess_query query = []"
  shows "(get_fuzzy_scores env (preprocess_query query) indices0 = Inr (fuzzy_scores, substring_boost)
            \<longrightarrow> substring_boost = replicate (length indices0) 1) \<and>
         (startswith_boosts env (preprocess_query query) indices0 = Inr startswith_boost
            \<longrightarrow> startswith_boost = replicate (length indices0) 1)"
proof -
  have "list_all2 (\<lambda>i y. \<exists>p. py_index (products env) i = Inr p \<and> y = (1::real)) idx bs
          \<Longrightarrow> bs = replicate (length idx) 1" for idx :: "int list" and bs
    by (induction idx bs rule: list_all2_induct) auto
  then show ?thesis
    by (simp add: assms get_fuzzy_scores_eq_Inr startswith_boosts_eq_Inr)
qed

theorem empty_query_boosts_witness:
  "preprocess_query ''of THE'' = [] \<and>
   get_fuzzy_scores tea_shop (preprocess_query ''of THE'') [2, - 1] = Inr ([0, 0], [1, 1]) \<and>
   startswith_boosts tea_shop (preprocess_query ''of THE'') [2, - 1] = Inr [1, 1] \<and>
   [1, 1] = replicate (length [2, - 1 :: int]) (1::real)"
proof -
  have q: "preprocess_query ''of THE'' = []" by code_simp
  have f: "get_fuzzy_scores tea_shop (preprocess_query ''of THE'') [2, - 1] = Inr ([0, 0], [1, 1])"
    by code_simp
  have s: "startswith_boosts tea_shop (preprocess_query ''of THE'') [2, - 1] = Inr [1, 1]"
    by code_simp
  from empty_query_boosts [OF q, of tea_shop "[2, - 1]" "[0, 0]" "[1, 1]" "[1, 1]"] q f s
  show ?thesis by simp
qed

text \<open>
  The claim as the specification states it fails on the three-item catalog: the query
  \<open>the\<close> normalizes to the empty string, and every candidate gets the substring boost 1
  and the prefix boost 1, not 0.
\<close>

theorem empty_query_boost_counterexample:
  "preprocess_query ''the'' = [] \<and>
   get_fuzzy_scores tea_shop (preprocess_query ''the'') [0, 1, 2] = Inr ([0, 0, 0], [1, 1, 1]) \<and>
   startswith_boosts tea_shop (preprocess_query ''the'') [0, 1, 2] = Inr [1, 1, 1] \<and>
   score_candidates tea_shop ''the'' 1 = Inr ([1 / 5, 1 / 2, 7 / 10], [0, 1, 2], [13 / 25, 2 / 5, 8 / 25])"
  by code_simp



section \<open>Selection: the claims\<close>



text \<open>
  Claim C7. Under the contracts of the index search and of \<open>np.argsort\<close>, a result that
  is returned has at most \<open>top_k\<close> elements; and when the candidates were scored and no
  score exceeds 0.1, the search returns the empty list, not an error.
\<close>

theorem result_size:
  assumes ok: "faiss_ok (faiss_index_search env)"
      and srt: "argsort_ok (np_argsort env)"
  shows "(search_products env query top_k = Inr results \<longrightarrow> int (length results) \<le> top_k) \<and>
         (score_candidates env query top_k = Inr (distances0, indices0, final_scores) \<and>
          (\<forall>s \<in> set final_scores. s \<le> 0.1) \<longrightarrow> search_products env query top_k = Inr [])"
proof -
  have size: "int (length results) \<le> top_k" if run: "search_products env query top_k = Inr results"
  proof -
    from run obtain d0 i0 fs where sc: "score_candidates env query top_k = Inr (d0, i0, fs)"
      and sel: "select_results env i0 fs top_k = Inr results"
      by (rule search_products_InrE)
    from sc obtain e D I where "faiss_index_search env e (top_k * 3) = Inr (D, I)"
      "py_index D 0 = Inr d0"
      by (rule score_candidates_InrE)
    with ok have "int (length d0) = top_k * 3"
      unfolding faiss_ok_def by (meson py_index_mem)
    then have k: "0 \<le> top_k" by linarith
    from sel obtain pos where pos: "top_k_positions env fs top_k = Inr pos"
      and rel: "list_all2 (\<lambda>i r. \<exists>j p. py_index i0 (int i) = Inr j \<and>
                 py_index (products env) j = Inr p \<and> i < length fs \<and> r = (p, fs ! i)) pos results"
      by (auto simp: select_results_eq_Inr)
    from top_k_positions_InrD(1) [OF pos] k have "int (length pos) \<le> top_k"
      by (simp add: length_py_slice_to)
    with list_all2_lengthD [OF rel] show ?thesis by simp
  qed
  have none: "search_products env query top_k = Inr []"
    if sc: "score_candidates env query top_k = Inr (distances0, indices0, final_scores)"
      and low: "\<forall>s \<in> set final_scores. s \<le> 0.1"
  proof -
    have "\<not> 0.1 < final_scores ! i" if "i < length final_scores" for i
      using low that by (metis nth_mem not_less)
    then have "np_where_gt final_scores 0.1 = []"
      unfolding np_where_gt_def filter_empty_conv by simp
    moreover have "np_argsort env [] = []"
      using srt unfolding argsort_ok_def by (metis atLeastLessThan_empty_iff2 length_0_conv less_nat_zero_code set_empty list.size(3))
    ultimately have "top_k_positions env final_scores top_k = Inr []"
      by (simp add: top_k_positions_def np_take_def py_slice_to_def)
    then have "select_results env indices0 final_scores top_k = Inr []"
      by (simp add: select_results_def)
    with sc show ?thesis by (simp add: search_products_def)
  qed
  from size none show ?thesis by blast
qed

theorem result_size_witness:
  "faiss_ok (faiss_index_search far_shop) \<and> argsort_ok (np_argsort far_shop) \<and>
   score_candidates far_shop ''tea'' 1 =
     Inr ([19 / 10, 2, 5 / 2], [0, 1, 2], [- (9 / 25), - (2 / 5), - (3 / 5)]) \<and>
   - (9 / 25) \<le> (0.1::real) \<and> - (2 / 5) \<le> (0.1::real) \<and> - (3 / 5) \<le> (0.1::real) \<and>
   search_products far_shop ''tea'' 1 = Inr [] \<and>
   search_products tea_shop ''green tea'' 1 = Inr [(''Green Tea 250g'', 23 / 25)] \<and>
   int (length [(''Green Tea 250g'', 23 / 25 :: real)]) \<le> 1"
proof -
  have ok: "faiss_ok (faiss_index_search far_shop)"
    unfolding far_shop_def by (simp add: flat_search_ok)
  have srt: "argsort_ok (np_argsort far_shop)"
    by (simp add: far_shop_def argsort_stable_ok)
  have sc: "score_candidates far_shop ''tea'' 1 =
     Inr ([19 / 10, 2, 5 / 2], [0, 1, 2], [- (9 / 25), - (2 / 5), - (3 / 5)])"
    by code_simp
  have low: "\<forall>s \<in> set [- (9 / 25), - (2 / 5), - (3 / 5) :: real]. s \<le> 0.1"
    by simp
  have tea: "search_products tea_shop ''green tea'' 1 = Inr [(''Green Tea 250g'', 23 / 25)]"
    by code_simp
  from result_size [OF ok srt, of "''tea''" 1 "[]" "[19 / 10, 2, 5 / 2]" "[0, 1, 2]"
      "[- (9 / 25), - (2 / 5), - (3 / 5)]"] sc low
  have "search_products far_shop ''tea'' 1 = Inr []" by blast
  with ok srt sc low tea show ?thesis by simp
qed

text \<open>
  Claim C10. Every returned name is a name of the catalog, and it is the name of one of the
  \<open>3 * top_k\<close> candidates that the index search returned for the query; the returned score
  is that candidate's fused score.
\<close>

theorem results_from_candidates:
  assumes ok: "faiss_ok (faiss_index_search env)"
      and run: "search_products env query top_k = Inr results"
      and mem: "(name, score) \<in> set results"
  shows "name \<in> set (products env) \<and>
         (\<exists>distances0 indices0 final_scores j.
            score_candidates env query top_k = Inr (distances0, indices0, final_scores) \<and>
            int (length indices0) = 3 * top_k \<and> j < length indices0 \<and>
            py_index (products env) (indices0 ! j) = Inr name \<and> score = final_scores ! j)"
proof -
  from run obtain d0 i0 fs where sc: "score_candidates env query top_k = Inr (d0, i0, fs)"
    and sel: "select_results env i0 fs top_k = Inr results"
    by (rule search_products_InrE)
  from sc obtain e D I where "faiss_index_search env e (top_k * 3) = Inr (D, I)"
    "py_index I 0 = Inr i0"
    by (rule score_candidates_InrE)
  with ok have len: "int (length i0) = 3 * top_k"
    unfolding faiss_ok_def by (metis py_index_mem mult.commute)
  from sel mem obtain pos i where i: "i < length i0"
    "py_index (products env) (i0 ! i) = Inr name" "score = fs ! i"
    by (rule select_results_memE)
  from i(2) have "name \<in> set (products env)" by (rule py_index_mem)
  with sc len i show ?thesis by blast
qed

theorem results_from_candidates_witness:
  "faiss_ok (faiss_index_search tea_shop) \<and>
   search_products tea_shop ''green tea'' 1 = Inr [(''Green Tea 250g'', 23 / 25)] \<and>
   ''Green Tea 250g'' \<in> set (products tea_shop) \<and>
   (\<exists>distances0 indices0 final_scores j.
      score_candidates tea_shop ''green tea'' 1 = Inr (distances0, indices0, final_scores) \<and>
      int (length indices0) = 3 * 1 \<and> j < length indices0 \<and>
      py_index (products tea_shop) (indices0 ! j) = Inr ''Green Tea 250g'' \<and>
      23 / 25 = final_scores ! j)"
proof -
  have run: "search_products tea_shop ''green tea'' 1 = Inr [(''Green Tea 250g'', 23 / 25)]"
    by code_simp
  have mem: "(''Green Tea 250g'', 23 / 25 :: real) \<in> set [(''Green Tea 250g'', 23 / 25)]"
    by simp
  from results_from_candidates [OF tea_shop_faiss_ok run mem] run tea_shop_faiss_ok
  show ?thesis by blast
qed







section \<open>Determinism: the claim\<close>



end
